theory Spec2Isabelle
  imports Main "HOL-Library.Sublist"
begin

section \<open>Go values the key allocator works with\<close>

text \<open>
  A Go \<open>string\<close> is a sequence of bytes, which is what \<^typ>\<open>string\<close> is here.
  A Go function of result type \<open>(string, error)\<close> returns a pair whose second
  component is \<open>nil\<close> (\<^term>\<open>None\<close>) on success.
\<close>

datatype error =
    SourceError string
  | Errorf string error

text \<open>
  \<open>SourceError m\<close> is an error raised by the random-identifier source, with message
  \<open>m\<close>; \<open>Errorf p e\<close> is \<open>fmt.Errorf(p + "%w", e)\<close>, the error \<open>e\<close> wrapped
  behind the prefix \<open>p\<close>.
\<close>

subsection \<open>strings.Split with a one-byte separator\<close>

text \<open>
  \<open>strings.Split(s, sep)\<close> cuts \<open>s\<close> at every occurrence of \<open>sep\<close>: it looks for
  the first occurrence, stores what stands before it, and goes on with what stands
  behind it; what is left when no separator is found is the last element. The source
  only calls it with the separator \<open>"."\<close>, one byte long.
\<close>

function Split :: "string \<Rightarrow> char \<Rightarrow> string list" where
  "Split s sep =
     (case dropWhile (\<lambda>c. c \<noteq> sep) s of
        [] \<Rightarrow> [s]
      | _ # rest \<Rightarrow> takeWhile (\<lambda>c. c \<noteq> sep) s # Split rest sep)"
  by pat_completeness auto
termination
proof (relation "measure (\<lambda>(s, sep). length s)")
  show "wf (measure (\<lambda>(s, sep). length s))"
    by simp
next
  fix s :: string and sep x rest
  assume "dropWhile (\<lambda>c. c \<noteq> sep) s = x # rest"
  moreover have "length (dropWhile (\<lambda>c. c \<noteq> sep) s) \<le> length s"
    by (rule length_dropWhile_le)
  ultimately show "((rest, sep), (s, sep)) \<in> measure (\<lambda>(s, sep). length s)"
    by simp
qed

declare Split.simps [simp del]

text \<open>
  Indexing a slice panics out of range; \<^term>\<open>None\<close> is the run-time panic.
\<close>

definition index :: "'a list \<Rightarrow> int \<Rightarrow> 'a option" where
  "index xs i = (if 0 \<le> i \<and> i < int (length xs) then Some (xs ! nat i) else None)"

subsection \<open>time.Time and the layout "200601"\<close>

datatype Month =
    January | February | March | April | May | June
  | July | August | September | October | November | December

fun month_int :: "Month \<Rightarrow> int" where
  "month_int January = 1"
| "month_int February = 2"
| "month_int March = 3"
| "month_int April = 4"
| "month_int May = 5"
| "month_int June = 6"
| "month_int July = 7"
| "month_int August = 8"
| "month_int September = 9"
| "month_int October = 10"
| "month_int November = 11"
| "month_int December = 12"

text \<open>
  A clock reading, as the calendar fields \<open>Time.Date\<close> and \<open>Time.Clock\<close> give them in
  the reading's own location (the local time zone for \<open>time.Now()\<close>).
\<close>

record Time =
  year :: int
  month :: Month
  day :: int
  hour :: int
  minute :: int
  second :: int

text \<open>\<open>byte('0' + d)\<close>, the decimal digit of \<open>d\<close>.\<close>

definition digit_byte :: "nat \<Rightarrow> char" where
  "digit_byte d = char_of (of_char CHR ''0'' + d)"

text \<open>The decimal digits of \<open>u\<close>, most significant first, as \<open>appendInt\<close> assembles them.\<close>

function decimal :: "nat \<Rightarrow> string" where
  "decimal u = (if u < 10 then [digit_byte u] else decimal (u div 10) @ [digit_byte (u mod 10)])"
  by pat_completeness auto
termination
  by (relation "measure id") auto

declare decimal.simps [simp del]

text \<open>
  \<open>appendInt(b, x, width)\<close> of package \<open>time\<close>: a minus sign for a negative \<open>x\<close>,
  then zeros up to \<open>width\<close> digits, then the decimal digits of \<open>|x|\<close>. A number of more
  than \<open>width\<close> digits is written in full.
\<close>

definition appendInt :: "string \<Rightarrow> int \<Rightarrow> nat \<Rightarrow> string" where
  "appendInt b x width =
     (let b1 = (if x < 0 then b @ ''-'' else b);
          ds = decimal (nat \<bar>x\<bar>)
      in b1 @ replicate (width - length ds) CHR ''0'' @ ds)"

text \<open>
  \<open>t.Format("200601")\<close>: the layout element \<open>2006\<close> is the year in at least four
  digits, \<open>01\<close> is the month's number in two digits.
\<close>

definition Format_200601 :: "'a Time_scheme \<Rightarrow> string" where
  "Format_200601 t = appendInt (appendInt [] (year t) 4) (month_int (month t)) 2"

subsection \<open>The ambient clock and random source\<close>

text \<open>
  The allocator reads two things it is not given as arguments: the wall clock
  (\<open>time.Now()\<close>) and the random-identifier source (\<open>gonanoid.New(15)\<close>). The world
  holds both: the clock's reading, and what the source returns at each of its calls, a
  pair of the identifier and the error as the library returns it. Everything else the
  process can see is the record's extension.
\<close>

record world =
  clock :: Time
  nanoid_source :: "nat \<Rightarrow> string \<times> error option"
  draws :: nat

definition time_Now :: "'a world_scheme \<Rightarrow> Time" where
  "time_Now w = clock w"

definition gonanoid_New_15 :: "'a world_scheme \<Rightarrow> (string \<times> error option) \<times> 'a world_scheme" where
  "gonanoid_New_15 w = (nanoid_source w (draws w), w\<lparr>draws := Suc (draws w)\<rparr>)"

section \<open>The key allocator of the SDK v1 program\<close>

text \<open>
  Both functions return \<^term>\<open>None\<close> when the call panics, and otherwise Go's pair of
  the key and the error, with the world after the call.
\<close>

definition GenerateImageKey ::
    "string \<Rightarrow> 'a world_scheme \<Rightarrow> ((string \<times> error option) \<times> 'a world_scheme) option" where
  "GenerateImageKey filename w =
     (let parts = Split filename CHR ''.'' in
      case (if length parts > 1 then index parts (int (length parts) - 1) else Some ''jpg'') of
        None \<Rightarrow> None
      | Some ext \<Rightarrow>
          (let now = time_Now w;
               yearMonth = Format_200601 now;
               ((nanoID, err), w') = gonanoid_New_15 w
           in case err of
                Some e \<Rightarrow> Some (('''', Some (Errorf ''failed to generate nanoid: '' e)), w')
              | None \<Rightarrow> Some ((yearMonth @ ''/'' @ nanoID @ ''.'' @ ext, None), w')))"

definition GenerateImageKeyWithEnv ::
    "string \<Rightarrow> string \<Rightarrow> 'a world_scheme \<Rightarrow> ((string \<times> error option) \<times> 'a world_scheme) option" where
  "GenerateImageKeyWithEnv filename environment w =
     (case GenerateImageKey filename w of
        None \<Rightarrow> None
      | Some ((key, err), w') \<Rightarrow>
          (case err of
             Some e \<Rightarrow> Some (('''', Some e), w')
           | None \<Rightarrow>
               if environment = ''dev'' \<or> environment = ''development''
               then Some ((''dev/'' @ key, None), w')
               else Some ((key, None), w')))"

section \<open>The key allocator of the SDK v2 program\<close>

definition GenerateImageKey_v2 ::
    "string \<Rightarrow> 'a world_scheme \<Rightarrow> ((string \<times> error option) \<times> 'a world_scheme) option" where
  "GenerateImageKey_v2 filename w =
     (let parts = Split filename CHR ''.'' in
      case (if length parts > 1 then index parts (int (length parts) - 1) else Some ''jpg'') of
        None \<Rightarrow> None
      | Some ext \<Rightarrow>
          (let now = time_Now w;
               yearMonth = Format_200601 now;
               ((nanoID, err), w') = gonanoid_New_15 w
           in case err of
                Some e \<Rightarrow> Some (('''', Some (Errorf ''failed to generate nanoid: '' e)), w')
              | None \<Rightarrow> Some ((yearMonth @ ''/'' @ nanoID @ ''.'' @ ext, None), w')))"

definition GenerateImageKeyWithEnv_v2 ::
    "string \<Rightarrow> string \<Rightarrow> 'a world_scheme \<Rightarrow> ((string \<times> error option) \<times> 'a world_scheme) option" where
  "GenerateImageKeyWithEnv_v2 filename environment w =
     (case GenerateImageKey_v2 filename w of
        None \<Rightarrow> None
      | Some ((key, err), w') \<Rightarrow>
          (case err of
             Some e \<Rightarrow> Some (('''', Some e), w')
           | None \<Rightarrow>
               if environment = ''dev'' \<or> environment = ''development''
               then Some ((''dev/'' @ key, None), w')
               else Some ((key, None), w')))"

section \<open>The notions the specification speaks of\<close>

text \<open>The substring of \<open>s\<close> behind its last \<open>sep\<close> (all of \<open>s\<close> when it has none).\<close>

definition after_last :: "char \<Rightarrow> string \<Rightarrow> string" where
  "after_last sep s = rev (takeWhile (\<lambda>c. c \<noteq> sep) (rev s))"

text \<open>The first \<open>/\<close>-delimited segment of a key.\<close>

definition date_segment :: "string \<Rightarrow> string" where
  "date_segment key = takeWhile (\<lambda>c. c \<noteq> CHR ''/'') key"

text \<open>The \<open>/\<close>-delimited segments of a key.\<close>

definition segments :: "string \<Rightarrow> string list" where
  "segments key = Split key CHR ''/''"

text \<open>
  \<open>strings.ToLower\<close>. On a string of ASCII bytes only it lower-cases the letters \<open>A\<close> to
  \<open>Z\<close> byte by byte. On any other string it maps code points by the Unicode case tables,
  which are not part of this development: \<^term>\<open>None\<close> stands for a result that is not
  modelled.
\<close>

definition is_upper :: "char \<Rightarrow> bool" where
  "is_upper c = ((65::nat) \<le> of_char c \<and> of_char c \<le> (90::nat))"

definition is_lower :: "char \<Rightarrow> bool" where
  "is_lower c = ((97::nat) \<le> of_char c \<and> of_char c \<le> (122::nat))"

definition is_digit :: "char \<Rightarrow> bool" where
  "is_digit c = ((48::nat) \<le> of_char c \<and> of_char c \<le> (57::nat))"

definition is_ascii :: "char \<Rightarrow> bool" where
  "is_ascii c = (of_char c < (128::nat))"

definition lower_byte :: "char \<Rightarrow> char" where
  "lower_byte c = (if is_upper c then char_of (of_char c + (32::nat)) else c)"

definition ToLower :: "string \<Rightarrow> string option" where
  "ToLower s = (if list_all is_ascii s then Some (map lower_byte s) else None)"

text \<open>The URL-safe alphabet of the identifier source, and the class \<open>[A-Za-z0-9_-]\<close>.\<close>

definition defaultAlphabet :: string where
  "defaultAlphabet = ''_-0123456789abcdefghijklmnopqrstuvwxyzABCDEFGHIJKLMNOPQRSTUVWXYZ''"

definition url_safe :: "char \<Rightarrow> bool" where
  "url_safe c = (is_upper c \<or> is_lower c \<or> is_digit c \<or> c = CHR ''_'' \<or> c = CHR ''-'')"

text \<open>An identifier as the source yields it: 15 bytes of the URL-safe alphabet.\<close>

definition nanoid15 :: "string \<Rightarrow> bool" where
  "nanoid15 s = (length s = 15 \<and> list_all (\<lambda>c. c \<in> set defaultAlphabet) s)"

text \<open>The pattern \<open>^\d{6}/[A-Za-z0-9_-]{15}\.PNG$\<close>.\<close>

definition matches_PNG_pattern :: "string \<Rightarrow> bool" where
  "matches_PNG_pattern k =
     (length k = 26 \<and> list_all is_digit (take 6 k) \<and> k ! 6 = CHR ''/'' \<and>
      list_all url_safe (take 15 (drop 7 k)) \<and> drop 22 k = ''.PNG'')"

text \<open>The extension the allocator gives a filename.\<close>

definition extension_of :: "string \<Rightarrow> string" where
  "extension_of filename =
     (if CHR ''.'' \<in> set filename then after_last CHR ''.'' filename else ''jpg'')"

text \<open>What the next call of the identifier source returns.\<close>

abbreviation next_nanoid :: "'a world_scheme \<Rightarrow> string \<times> error option" where
  "next_nanoid w \<equiv> nanoid_source w (draws w)"

text \<open>The number a string of decimal digits denotes.\<close>

definition digits_value :: "string \<Rightarrow> nat" where
  "digits_value s = foldl (\<lambda>a c. 10 * a + (of_char c - 48)) 0 s"

text \<open>The bytes \<open>appendInt\<close> writes: a decimal digit or the minus sign.\<close>

definition sign_or_digit :: "char \<Rightarrow> bool" where
  "sign_or_digit c = (is_digit c \<or> c = CHR ''-'')"

text \<open>A world whose clock and next identifier are given, for concrete runs.\<close>

definition world_at :: "int \<Rightarrow> Month \<Rightarrow> string \<times> error option \<Rightarrow> world" where
  "world_at y m out =
     \<lparr>clock = \<lparr>year = y, month = m, day = 15, hour = 10, minute = 30, second = 0\<rparr>,
      nanoid_source = (\<lambda>n. out), draws = 0\<rparr>"

section \<open>Cutting strings\<close>

lemma Split_no_sep: "sep \<notin> set s \<Longrightarrow> Split s sep = [s]"
proof -
  assume "sep \<notin> set s"
  then have "dropWhile (\<lambda>c. c \<noteq> sep) s = []"
    by auto
  then show ?thesis
    by (subst Split.simps) (simp only: list.case)
qed

lemma Split_at_sep:
  assumes "sep \<notin> set p"
  shows "Split (p @ sep # rest) sep = p # Split rest sep"
proof -
  have d: "dropWhile (\<lambda>c. c \<noteq> sep) (p @ sep # rest) = sep # rest"
    using assms by (auto simp: dropWhile_append3)
  have t: "takeWhile (\<lambda>c. c \<noteq> sep) (p @ sep # rest) = p"
    using assms by (auto simp: takeWhile_tail)
  show ?thesis
    by (subst Split.simps) (simp add: d t)
qed

lemma Split_cases:
  obtains "sep \<notin> set s" | p rest where "s = p @ sep # rest" "sep \<notin> set p"
proof (cases "sep \<in> set s")
  case False
  then show ?thesis by (rule that(1))
next
  case True
  then obtain p rest where "s = p @ sep # rest" "sep \<notin> set p"
    by (auto dest: split_list_first)
  then show ?thesis by (rule that(2))
qed

lemma length_Split: "length (Split s sep) = Suc (count_list s sep)"
proof (induction "length s" arbitrary: s rule: less_induct)
  case less
  show ?case
  proof (cases rule: Split_cases [of sep s])
    case 1
    then show ?thesis
      by (simp add: Split_no_sep count_list_0_iff)
  next
    case (2 p rest)
    have "length rest < length s"
      using 2 by simp
    then have "length (Split rest sep) = Suc (count_list rest sep)"
      by (rule less)
    moreover have "count_list p sep = 0"
      using 2 by (simp add: count_list_0_iff)
    ultimately show ?thesis
      using 2 by (simp add: Split_at_sep)
  qed
qed

lemma Split_not_Nil: "Split s sep \<noteq> []"
  using length_Split [of s sep] by auto

lemma takeWhile_all: "sep \<notin> set s \<Longrightarrow> takeWhile (\<lambda>c. c \<noteq> sep) s = s"
  by (induction s) auto

lemma after_last_no_sep: "sep \<notin> set s \<Longrightarrow> after_last sep s = s"
  by (simp add: after_last_def takeWhile_all)

lemma after_last_at_sep: "after_last sep (p @ sep # rest) = after_last sep rest"
proof -
  have "takeWhile (\<lambda>c. c \<noteq> sep) (rev rest @ sep # rev p) = takeWhile (\<lambda>c. c \<noteq> sep) (rev rest)"
    by (induction rest rule: rev_induct) simp_all
  then show ?thesis
    by (simp add: after_last_def)
qed

lemma last_Split: "last (Split s sep) = after_last sep s"
proof (induction "length s" arbitrary: s rule: less_induct)
  case less
  show ?case
  proof (cases rule: Split_cases [of sep s])
    case 1
    then show ?thesis
      by (simp add: Split_no_sep after_last_no_sep)
  next
    case (2 p rest)
    have "length rest < length s"
      using 2 by simp
    then have "last (Split rest sep) = after_last sep rest"
      by (rule less)
    then show ?thesis
      using 2 by (simp add: Split_at_sep Split_not_Nil after_last_at_sep)
  qed
qed

lemma after_last_free: "sep \<notin> set (after_last sep s)"
proof -
  have "sep \<notin> set (takeWhile (\<lambda>c. c \<noteq> sep) (rev s))"
    by (auto dest: set_takeWhileD)
  then show ?thesis
    by (simp add: after_last_def)
qed

lemma after_last_append: "sep \<notin> set t \<Longrightarrow> after_last sep (p @ sep # t) = t"
  by (simp add: after_last_at_sep after_last_no_sep)

lemma index_last: "xs \<noteq> [] \<Longrightarrow> index xs (int (length xs) - 1) = Some (last xs)"
  by (cases xs rule: rev_cases) (simp_all add: index_def nth_append)

section \<open>Decimal digits and the date segment\<close>

lemma of_char_digit_byte: "d < 10 \<Longrightarrow> of_char (digit_byte d) = 48 + d"
  by (simp add: digit_byte_def)

lemma digit_byte_is_digit: "d < 10 \<Longrightarrow> is_digit (digit_byte d)"
  by (simp add: is_digit_def of_char_digit_byte)

lemma decimal_is_digit: "list_all is_digit (decimal u)"
proof (induction u rule: decimal.induct)
  case (1 u)
  show ?case
  proof (cases "u < 10")
    case True
    then show ?thesis
      by (subst decimal.simps) (simp add: digit_byte_is_digit)
  next
    case False
    with 1 show ?thesis
      by (subst decimal.simps) (simp add: digit_byte_is_digit)
  qed
qed

lemma decimal_not_Nil: "decimal u \<noteq> []"
  by (subst decimal.simps) simp

lemma length_decimal_le: "u < 10 ^ k \<Longrightarrow> 0 < k \<Longrightarrow> length (decimal u) \<le> k"
proof (induction u arbitrary: k rule: decimal.induct)
  case (1 u)
  show ?case
  proof (cases "u < 10")
    case True
    with 1(3) show ?thesis
      by (subst decimal.simps) simp
  next
    case False
    then obtain j where k: "k = Suc j"
      using 1(3) by (cases k) auto
    have "0 < j"
      using False 1(2) k by (cases j) auto
    moreover have "u div 10 < 10 ^ j"
      using 1(2) k by (simp add: less_mult_imp_div_less mult.commute)
    ultimately have "length (decimal (u div 10)) \<le> j"
      using 1(1) False by simp
    then show ?thesis
      using False k by (subst decimal.simps) simp
  qed
qed

lemma digits_value_snoc: "digits_value (s @ [c]) = 10 * digits_value s + (of_char c - 48)"
  by (simp add: digits_value_def)

lemma digits_value_decimal: "digits_value (decimal u) = u"
proof (induction u rule: decimal.induct)
  case (1 u)
  show ?case
  proof (cases "u < 10")
    case True
    then show ?thesis
      by (subst decimal.simps) (simp add: digits_value_def of_char_digit_byte)
  next
    case False
    with 1 show ?thesis
      by (subst decimal.simps) (simp add: digits_value_snoc of_char_digit_byte)
  qed
qed

lemma digits_value_zeros: "digits_value (replicate n CHR ''0'' @ s) = digits_value s"
proof -
  have "foldl (\<lambda>a c. 10 * a + (of_char c - 48)) 0 (replicate n CHR ''0'') = (0::nat)"
    by (induction n) simp_all
  then show ?thesis
    by (simp add: digits_value_def)
qed

lemma appendInt_append: "appendInt b x width = b @ appendInt [] x width"
  by (simp add: appendInt_def Let_def)

lemma zeros_is_digit: "list_all is_digit (replicate n CHR ''0'')"
  by (induction n) (simp_all add: is_digit_def)

lemma padded_is_digit: "list_all is_digit (replicate n CHR ''0'' @ decimal u)"
  by (simp add: decimal_is_digit zeros_is_digit)

lemma appendInt_chars: "list_all sign_or_digit (appendInt [] x width)"
  using padded_is_digit [of "width - length (decimal (nat \<bar>x\<bar>))" "nat \<bar>x\<bar>"]
  by (auto simp: appendInt_def Let_def list_all_iff sign_or_digit_def)

lemma appendInt_not_Nil: "appendInt [] x width \<noteq> []"
  by (simp add: appendInt_def Let_def decimal_not_Nil)

lemma minus_not_digit: "\<not> is_digit CHR ''-''"
  by (simp add: is_digit_def)

lemma padded_no_minus:
  "CHR ''-'' # s \<noteq> replicate n CHR ''0'' @ decimal u"
proof
  assume "CHR ''-'' # s = replicate n CHR ''0'' @ decimal u"
  then have "CHR ''-'' \<in> set (replicate n CHR ''0'' @ decimal u)"
    by (metis list.set_intros(1))
  then have "is_digit CHR ''-''"
    using padded_is_digit [of n u] by (simp only: list_all_iff)
  then show False
    by (simp add: minus_not_digit)
qed

lemma appendInt_inj:
  assumes "appendInt [] x width = appendInt [] y width"
  shows "x = y"
proof -
  let ?px = "replicate (width - length (decimal (nat \<bar>x\<bar>))) CHR ''0'' @ decimal (nat \<bar>x\<bar>)"
  let ?py = "replicate (width - length (decimal (nat \<bar>y\<bar>))) CHR ''0'' @ decimal (nat \<bar>y\<bar>)"
  have ex: "appendInt [] x width = (if x < 0 then CHR ''-'' # ?px else ?px)"
    by (simp add: appendInt_def Let_def)
  have ey: "appendInt [] y width = (if y < 0 then CHR ''-'' # ?py else ?py)"
    by (simp add: appendInt_def Let_def)
  have sign: "x < 0 \<longleftrightarrow> y < 0"
  proof (rule ccontr)
    assume "\<not> ?thesis"
    then consider "x < 0" "\<not> y < 0" | "\<not> x < 0" "y < 0"
      by blast
    then show False
    proof cases
      case 1
      then have "CHR ''-'' # ?px = ?py"
        using assms ex ey by simp
      then show False
        by (rule padded_no_minus [THEN notE])
    next
      case 2
      then have "CHR ''-'' # ?py = ?px"
        using assms ex ey by simp
      then show False
        by (rule padded_no_minus [THEN notE])
    qed
  qed
  have "?px = ?py"
    using assms ex ey sign by (simp split: if_splits)
  then have "digits_value ?px = digits_value ?py"
    by (rule arg_cong)
  then have "nat \<bar>x\<bar> = nat \<bar>y\<bar>"
    by (simp only: digits_value_zeros digits_value_decimal)
  then show ?thesis
    using sign by linarith
qed

lemma month_text:
  "appendInt [] (month_int m) 2 \<in> set [''01'', ''02'', ''03'', ''04'', ''05'', ''06'', ''07'', ''08'', ''09'', ''10'', ''11'', ''12'']"
  by (cases m) (simp_all, code_simp+)

lemma length_month_text: "length (appendInt [] (month_int m) 2) = 2"
  using month_text [of m] by auto

lemma month_int_inj: "month_int m = month_int m' \<Longrightarrow> m = m'"
  by (cases m; cases m'; simp)

lemma Format_200601_eq:
  "Format_200601 t = appendInt [] (year t) 4 @ appendInt [] (month_int (month t)) 2"
  by (simp add: Format_200601_def appendInt_append [of "appendInt [] (year t) 4"])

lemma Format_200601_inj:
  "Format_200601 t = Format_200601 t' \<longleftrightarrow> year t = year t' \<and> month t = month t'"
proof
  assume eq: "Format_200601 t = Format_200601 t'"
  have "appendInt [] (year t) 4 = appendInt [] (year t') 4 \<and>
        appendInt [] (month_int (month t)) 2 = appendInt [] (month_int (month t')) 2"
    using eq by (simp add: Format_200601_eq length_month_text)
  then show "year t = year t' \<and> month t = month t'"
    by (auto dest: appendInt_inj month_int_inj)
next
  assume "year t = year t' \<and> month t = month t'"
  then show "Format_200601 t = Format_200601 t'"
    by (simp add: Format_200601_def)
qed

lemma Format_200601_chars: "list_all sign_or_digit (Format_200601 t)"
  by (simp add: Format_200601_eq appendInt_chars)

lemma sign_or_digit_free:
  assumes "list_all sign_or_digit s" and "\<not> sign_or_digit c"
  shows "c \<notin> set s"
  using assms by (auto simp: list_all_iff)

lemma Format_200601_no_slash: "CHR ''/'' \<notin> set (Format_200601 t)"
  by (rule sign_or_digit_free [OF Format_200601_chars]) (simp add: sign_or_digit_def is_digit_def)

lemma Format_200601_no_dot: "CHR ''.'' \<notin> set (Format_200601 t)"
  by (rule sign_or_digit_free [OF Format_200601_chars]) (simp add: sign_or_digit_def is_digit_def)

lemma Format_200601_not_Nil: "Format_200601 t \<noteq> []"
  by (simp add: Format_200601_eq appendInt_not_Nil)

lemma Format_200601_not_dev: "\<not> prefix ''dev/'' (Format_200601 t @ rest)"
proof
  assume p: "prefix ''dev/'' (Format_200601 t @ rest)"
  obtain c cs where f: "Format_200601 t = c # cs"
    using Format_200601_not_Nil [of t] by (cases "Format_200601 t") auto
  then have "c = CHR ''d''"
    using p by simp
  moreover have "sign_or_digit c"
    using Format_200601_chars [of t] f by simp
  ultimately show False
    by (simp add: sign_or_digit_def is_digit_def)
qed

lemma four_digit_year:
  assumes "0 \<le> y" and "y \<le> 9999"
  shows "length (appendInt [] y 4) = 4 \<and> list_all is_digit (appendInt [] y 4)"
proof -
  have "nat \<bar>y\<bar> < 10 ^ 4"
    using assms by simp
  then have "length (decimal (nat \<bar>y\<bar>)) \<le> 4"
    by (rule length_decimal_le) simp
  then show ?thesis
    using assms padded_is_digit [of "4 - length (decimal (nat \<bar>y\<bar>))" "nat \<bar>y\<bar>"]
    by (simp add: appendInt_def Let_def)
qed

lemma month_text_is_digit: "list_all is_digit (appendInt [] (month_int m) 2)"
  using padded_is_digit [of "2 - length (decimal (nat \<bar>month_int m\<bar>))" "nat \<bar>month_int m\<bar>"]
  by (cases m) (simp_all add: appendInt_def Let_def)

lemma Format_200601_six_digits:
  assumes "0 \<le> year t" and "year t \<le> 9999"
  shows "length (Format_200601 t) = 6 \<and> list_all is_digit (Format_200601 t)"
  using four_digit_year [OF assms] 
  by (simp add: Format_200601_eq length_month_text month_text_is_digit)

lemma Split_many: "1 < length (Split s sep) \<longleftrightarrow> sep \<in> set s"
proof -
  have "count_list s sep = 0 \<longleftrightarrow> sep \<notin> set s"
    by (rule count_list_0_iff)
  then show ?thesis
    by (auto simp: length_Split)
qed

lemma extension_step:
  "(let parts = Split filename CHR ''.'' in
      if length parts > 1 then index parts (int (length parts) - 1) else Some ''jpg'')
   = Some (extension_of filename)"
  using Split_many [of filename "CHR ''.''"]
  by (simp add: Let_def extension_of_def index_last Split_not_Nil last_Split)

lemma GenerateImageKey_run:
  "GenerateImageKey filename w =
     Some ((case snd (next_nanoid w) of
              None \<Rightarrow> (Format_200601 (clock w) @ ''/'' @ fst (next_nanoid w) @ ''.'' @ extension_of filename, None)
            | Some e \<Rightarrow> ('''', Some (Errorf ''failed to generate nanoid: '' e))),
           w\<lparr>draws := Suc (draws w)\<rparr>)"
proof -
  have ext: "(if 1 < length (Split filename CHR ''.'')
              then index (Split filename CHR ''.'') (int (length (Split filename CHR ''.'')) - 1)
              else Some ''jpg'') = Some (extension_of filename)"
    using extension_step [of filename] by (simp add: Let_def)
  show ?thesis
    unfolding GenerateImageKey_def Let_def ext
    by (simp add: time_Now_def gonanoid_New_15_def split: prod.splits option.splits)
qed

lemma GenerateImageKeyWithEnv_run:
  "GenerateImageKeyWithEnv filename environment w =
     Some ((case snd (next_nanoid w) of
              None \<Rightarrow>
                ((if environment = ''dev'' \<or> environment = ''development'' then ''dev/'' else '''') @
                 Format_200601 (clock w) @ ''/'' @ fst (next_nanoid w) @ ''.'' @ extension_of filename, None)
            | Some e \<Rightarrow> ('''', Some (Errorf ''failed to generate nanoid: '' e))),
           w\<lparr>draws := Suc (draws w)\<rparr>)"
  by (simp add: GenerateImageKeyWithEnv_def GenerateImageKey_run split: option.splits)

section \<open>The extension of the key\<close>

lemma after_last_key:
  "after_last CHR ''.'' (p @ ''.'' @ extension_of filename) = extension_of filename"
proof -
  have "CHR ''.'' \<notin> set (extension_of filename)"
    by (simp add: extension_of_def after_last_free)
  then show ?thesis
    by (simp add: after_last_append)
qed

text \<open>
  Claim C1. When the identifier source succeeds, the key that \<open>GenerateImageKey\<close>
  returns ends, behind its last \<open>.\<close>, in the substring of the filename behind the
  filename's last \<open>.\<close> if the filename has a \<open>.\<close>, and in \<open>jpg\<close> if it has none. The
  key of \<open>GenerateImageKeyWithEnv\<close> has the same extension, whatever the environment.
\<close>

theorem GenerateImageKey_extension:
  assumes "snd (next_nanoid w) = None"
  shows "\<exists>key key' w'.
           GenerateImageKey filename w = Some ((key, None), w') \<and>
           GenerateImageKeyWithEnv filename environment w = Some ((key', None), w') \<and>
           after_last CHR ''.'' key =
             (if CHR ''.'' \<in> set filename then after_last CHR ''.'' filename else ''jpg'') \<and>
           after_last CHR ''.'' key' = after_last CHR ''.'' key"
proof -
  let ?base = "Format_200601 (clock w) @ ''/'' @ fst (next_nanoid w)"
  let ?pre = "if environment = ''dev'' \<or> environment = ''development'' then ''dev/'' else ''''"
  have "GenerateImageKey filename w =
          Some ((?base @ ''.'' @ extension_of filename, None), w\<lparr>draws := Suc (draws w)\<rparr>)"
    using assms by (simp add: GenerateImageKey_run)
  moreover have "GenerateImageKeyWithEnv filename environment w =
          Some (((?pre @ ?base) @ ''.'' @ extension_of filename, None), w\<lparr>draws := Suc (draws w)\<rparr>)"
    using assms by (simp add: GenerateImageKeyWithEnv_run)
  moreover have "after_last CHR ''.'' (?base @ ''.'' @ extension_of filename) =
          (if CHR ''.'' \<in> set filename then after_last CHR ''.'' filename else ''jpg'')"
    by (simp only: after_last_key) (simp add: extension_of_def)
  moreover have "after_last CHR ''.'' ((?pre @ ?base) @ ''.'' @ extension_of filename) =
          after_last CHR ''.'' (?base @ ''.'' @ extension_of filename)"
    by (simp only: after_last_key)
  ultimately show ?thesis
    by blast
qed

theorem GenerateImageKey_extension_witness:
  "(\<exists>key key' w'.
      GenerateImageKey ''photo.PNG'' (world_at 2024 March (''V1StGXR8_Z5jdHi'', None)) = Some ((key, None), w') \<and>
      GenerateImageKeyWithEnv ''photo.PNG'' ''dev'' (world_at 2024 March (''V1StGXR8_Z5jdHi'', None)) = Some ((key', None), w') \<and>
      after_last CHR ''.'' key = ''PNG'' \<and> after_last CHR ''.'' key' = after_last CHR ''.'' key) \<and>
   (\<exists>key key' w'.
      GenerateImageKey ''README'' (world_at 2024 March (''V1StGXR8_Z5jdHi'', None)) = Some ((key, None), w') \<and>
      GenerateImageKeyWithEnv ''README'' ''dev'' (world_at 2024 March (''V1StGXR8_Z5jdHi'', None)) = Some ((key', None), w') \<and>
      after_last CHR ''.'' key = ''jpg'' \<and> after_last CHR ''.'' key' = after_last CHR ''.'' key)"
proof -
  have ok: "snd (next_nanoid (world_at 2024 March (''V1StGXR8_Z5jdHi'', None))) = None"
    by (simp add: world_at_def)
  have dotted: "after_last CHR ''.'' ''photo.PNG'' = ''PNG''"
    by (simp add: after_last_def)
  show ?thesis
    using GenerateImageKey_extension [OF ok, of "''photo.PNG''" "''dev''"]
      GenerateImageKey_extension [OF ok, of "''README''" "''dev''"]
    by (simp add: dotted)
qed

section \<open>The two programs\<close>

text \<open>
  Claim C9. The allocator of the SDK v2 program returns what the allocator of the SDK v1
  program returns, key, error and world, for every filename, environment, clock reading
  and outcome of the identifier source.
\<close>

theorem v1_v2_equal:
  "GenerateImageKey_v2 filename w = GenerateImageKey filename w \<and>
   GenerateImageKeyWithEnv_v2 filename environment w = GenerateImageKeyWithEnv filename environment w"
  by (simp add: GenerateImageKey_v2_def GenerateImageKey_def
      GenerateImageKeyWithEnv_v2_def GenerateImageKeyWithEnv_def)

theorem v1_v2_equal_witness:
  "map_option fst (GenerateImageKeyWithEnv_v2 ''photo.PNG'' ''dev''
      (world_at 2024 March (''V1StGXR8_Z5jdHi'', None))) =
     Some (''dev/202403/V1StGXR8_Z5jdHi.PNG'', None) \<and>
   map_option fst (GenerateImageKey_v2 ''photo.PNG''
      (world_at 2024 March ('''', Some (SourceError ''no entropy'')))) =
     Some ('''', Some (Errorf ''failed to generate nanoid: '' (SourceError ''no entropy'')))"
proof -
  have "map_option fst (GenerateImageKeyWithEnv ''photo.PNG'' ''dev''
      (world_at 2024 March (''V1StGXR8_Z5jdHi'', None))) =
     Some (''dev/202403/V1StGXR8_Z5jdHi.PNG'', None)"
    by code_simp
  moreover have "map_option fst (GenerateImageKey ''photo.PNG''
      (world_at 2024 March ('''', Some (SourceError ''no entropy'')))) =
     Some ('''', Some (Errorf ''failed to generate nanoid: '' (SourceError ''no entropy'')))"
    by code_simp
  ultimately show ?thesis
    by (simp only: v1_v2_equal)
qed

section \<open>The environment prefix\<close>

text \<open>
  Claim C2. When the identifier source succeeds, the key of \<open>GenerateImageKeyWithEnv\<close>
  starts with \<open>dev/\<close> if and only if the environment is exactly \<open>dev\<close> or exactly
  \<open>development\<close>, for every filename and every environment string.
\<close>

theorem dev_prefix_iff:
  assumes "snd (next_nanoid w) = None"
  shows "\<exists>key w'.
           GenerateImageKeyWithEnv filename environment w = Some ((key, None), w') \<and>
           (prefix ''dev/'' key \<longleftrightarrow> environment = ''dev'' \<or> environment = ''development'')"
proof -
  let ?base = "Format_200601 (clock w) @ ''/'' @ fst (next_nanoid w) @ ''.'' @ extension_of filename"
  show ?thesis
  proof (cases "environment = ''dev'' \<or> environment = ''development''")
    case True
    then have "GenerateImageKeyWithEnv filename environment w =
        Some ((''dev/'' @ ?base, None), w\<lparr>draws := Suc (draws w)\<rparr>)"
      using assms by (simp add: GenerateImageKeyWithEnv_run)
    moreover have "prefix ''dev/'' (''dev/'' @ ?base)"
      by simp
    ultimately show ?thesis
      using True by blast
  next
    case False
    then have "GenerateImageKeyWithEnv filename environment w =
        Some ((?base, None), w\<lparr>draws := Suc (draws w)\<rparr>)"
      using assms by (simp add: GenerateImageKeyWithEnv_run)
    moreover have "\<not> prefix ''dev/'' ?base"
      by (rule Format_200601_not_dev)
    ultimately show ?thesis
      using False by blast
  qed
qed

theorem dev_prefix_iff_witness:
  "(\<exists>key w'.
      GenerateImageKeyWithEnv ''photo.PNG'' ''development'' (world_at 2024 March (''V1StGXR8_Z5jdHi'', None)) =
        Some ((key, None), w') \<and> prefix ''dev/'' key) \<and>
   (\<exists>key w'.
      GenerateImageKeyWithEnv ''photo.PNG'' ''Dev'' (world_at 2024 March (''V1StGXR8_Z5jdHi'', None)) =
        Some ((key, None), w') \<and> \<not> prefix ''dev/'' key) \<and>
   (\<exists>key w'.
      GenerateImageKeyWithEnv ''photo.PNG'' ''production'' (world_at 2024 March (''V1StGXR8_Z5jdHi'', None)) =
        Some ((key, None), w') \<and> \<not> prefix ''dev/'' key) \<and>
   (\<exists>key w'.
      GenerateImageKeyWithEnv ''photo.PNG'' [] (world_at 2024 March (''V1StGXR8_Z5jdHi'', None)) =
        Some ((key, None), w') \<and> \<not> prefix ''dev/'' key)"
proof -
  have ok: "snd (next_nanoid (world_at 2024 March (''V1StGXR8_Z5jdHi'', None))) = None"
    by (simp add: world_at_def)
  show ?thesis
    using dev_prefix_iff [OF ok, of "''photo.PNG''" "''development''"]
      dev_prefix_iff [OF ok, of "''photo.PNG''" "''Dev''"]
      dev_prefix_iff [OF ok, of "''photo.PNG''" "''production''"]
      dev_prefix_iff [OF ok, of "''photo.PNG''" "[]"]
    by simp
qed

section \<open>The segments of the key\<close>

lemma segments_plain:
  assumes "CHR ''/'' \<notin> set a" and "CHR ''/'' \<notin> set b"
  shows "segments (a @ ''/'' @ b) = [a, b]"
  using assms by (simp add: segments_def Split_at_sep Split_no_sep)

lemma segments_dev:
  assumes "CHR ''/'' \<notin> set a" and "CHR ''/'' \<notin> set b"
  shows "segments (''dev/'' @ a @ ''/'' @ b) = [''dev'', a, b]"
proof -
  have "Split (''dev'' @ CHR ''/'' # a @ CHR ''/'' # b) CHR ''/'' = ''dev'' # Split (a @ CHR ''/'' # b) CHR ''/''"
    by (rule Split_at_sep) simp
  then show ?thesis
    using assms by (simp add: segments_def Split_at_sep Split_no_sep)
qed

text \<open>
  The claim C3 as stated fails: the extension is taken from the filename as it is, and a
  \<open>/\<close> behind the filename's last \<open>.\<close> adds a segment to the key.
\<close>

theorem key_segments_counterexample:
  "nanoid15 ''V1StGXR8_Z5jdHi'' \<and>
   map_option fst (GenerateImageKeyWithEnv ''a.b/c'' ''production''
      (world_at 2024 March (''V1StGXR8_Z5jdHi'', None))) =
     Some (''202403/V1StGXR8_Z5jdHi.b/c'', None) \<and>
   segments ''202403/V1StGXR8_Z5jdHi.b/c'' = [''202403'', ''V1StGXR8_Z5jdHi.b'', ''c''] \<and>
   map_option fst (GenerateImageKeyWithEnv ''a.b/c'' ''dev''
      (world_at 2024 March (''V1StGXR8_Z5jdHi'', None))) =
     Some (''dev/202403/V1StGXR8_Z5jdHi.b/c'', None) \<and>
   length (segments ''dev/202403/V1StGXR8_Z5jdHi.b/c'') = 4"
  by code_simp

text \<open>
  Claim C3, amended. When the identifier source succeeds with an identifier that has no
  \<open>/\<close>, and the extension taken from the filename has no \<open>/\<close>, the key of
  \<open>GenerateImageKeyWithEnv\<close> is not empty and its \<open>/\<close>-delimited segments are the date
  segment and the identifier with the extension, two segments, behind the segment
  \<open>dev\<close> when the environment is \<open>dev\<close> or \<open>development\<close>, three segments.
\<close>

theorem key_segments:
  assumes "snd (next_nanoid w) = None"
    and "CHR ''/'' \<notin> set (fst (next_nanoid w))"
    and "CHR ''/'' \<notin> set (extension_of filename)"
  shows "\<exists>key w'.
           GenerateImageKeyWithEnv filename environment w = Some ((key, None), w') \<and>
           key \<noteq> [] \<and>
           segments key =
             (if environment = ''dev'' \<or> environment = ''development'' then [''dev''] else []) @
             [Format_200601 (clock w), fst (next_nanoid w) @ ''.'' @ extension_of filename] \<and>
           length (segments key) =
             (if environment = ''dev'' \<or> environment = ''development'' then 3 else 2)"
proof -
  let ?date = "Format_200601 (clock w)"
  let ?name = "fst (next_nanoid w) @ ''.'' @ extension_of filename"
  have date: "CHR ''/'' \<notin> set ?date"
    by (rule Format_200601_no_slash)
  have name: "CHR ''/'' \<notin> set ?name"
    using assms(2,3) by simp
  show ?thesis
  proof (cases "environment = ''dev'' \<or> environment = ''development''")
    case True
    then have "GenerateImageKeyWithEnv filename environment w =
        Some ((''dev/'' @ ?date @ ''/'' @ ?name, None), w\<lparr>draws := Suc (draws w)\<rparr>)"
      using assms(1) by (simp add: GenerateImageKeyWithEnv_run)
    moreover have "segments (''dev/'' @ ?date @ ''/'' @ ?name) = [''dev'', ?date, ?name]"
      using date name by (rule segments_dev)
    ultimately show ?thesis
      using True by auto
  next
    case False
    then have "GenerateImageKeyWithEnv filename environment w =
        Some ((?date @ ''/'' @ ?name, None), w\<lparr>draws := Suc (draws w)\<rparr>)"
      using assms(1) by (simp add: GenerateImageKeyWithEnv_run)
    moreover have "segments (?date @ ''/'' @ ?name) = [?date, ?name]"
      using date name by (rule segments_plain)
    ultimately show ?thesis
      using False by auto
  qed
qed

theorem key_segments_witness:
  "(\<exists>key w'.
      GenerateImageKeyWithEnv ''photo.PNG'' ''dev'' (world_at 2024 March (''V1StGXR8_Z5jdHi'', None)) =
        Some ((key, None), w') \<and> key \<noteq> [] \<and>
      segments key = [''dev'', ''202403'', ''V1StGXR8_Z5jdHi.PNG''] \<and> length (segments key) = 3) \<and>
   (\<exists>key w'.
      GenerateImageKeyWithEnv ''photo.PNG'' ''production'' (world_at 2024 March (''V1StGXR8_Z5jdHi'', None)) =
        Some ((key, None), w') \<and> key \<noteq> [] \<and>
      segments key = [''202403'', ''V1StGXR8_Z5jdHi.PNG''] \<and> length (segments key) = 2)"
proof -
  let ?w = "world_at 2024 March (''V1StGXR8_Z5jdHi'', None)"
  have ok: "snd (next_nanoid ?w) = None"
    by (simp add: world_at_def)
  have id: "CHR ''/'' \<notin> set (fst (next_nanoid ?w))"
    by (simp add: world_at_def)
  have ext: "CHR ''/'' \<notin> set (extension_of ''photo.PNG'')"
    by (simp add: extension_of_def after_last_def)
  have date: "Format_200601 (clock ?w) = ''202403''"
    by code_simp
  have name: "fst (next_nanoid ?w) = ''V1StGXR8_Z5jdHi''"
    by (simp add: world_at_def)
  have suffix: "extension_of ''photo.PNG'' = ''PNG''"
    by (simp add: extension_of_def after_last_def)
  show ?thesis
    using key_segments [OF ok id ext, of "''dev''"] key_segments [OF ok id ext, of "''production''"]
    by (simp add: date name suffix)
qed

section \<open>The case of the extension\<close>

text \<open>
  The claim C4 as stated fails: the extension keeps the case the filename gives it.
\<close>

theorem extension_lowercase_counterexample:
  "map_option fst (GenerateImageKey ''photo.PNG'' (world_at 2024 March (''V1StGXR8_Z5jdHi'', None))) =
     Some (''202403/V1StGXR8_Z5jdHi.PNG'', None) \<and>
   after_last CHR ''.'' ''202403/V1StGXR8_Z5jdHi.PNG'' = ''PNG'' \<and>
   ToLower (after_last CHR ''.'' ''photo.PNG'') = Some ''png'' \<and>
   Some (after_last CHR ''.'' ''202403/V1StGXR8_Z5jdHi.PNG'') \<noteq>
     ToLower (after_last CHR ''.'' ''photo.PNG'')"
  by code_simp

text \<open>
  Claim C4, amended. When the identifier source succeeds and the filename has a \<open>.\<close>,
  the extension in the key of \<open>GenerateImageKey\<close> is the filename's suffix behind its last
  \<open>.\<close>, byte for byte as the filename gives it: the key is the date segment, \<open>/\<close>, the
  identifier, \<open>.\<close> and that suffix, with no change of case.
\<close>

theorem extension_case_preserved:
  assumes "snd (next_nanoid w) = None" and "CHR ''.'' \<in> set filename"
  shows "\<exists>key w'.
           GenerateImageKey filename w = Some ((key, None), w') \<and>
           key = Format_200601 (clock w) @ ''/'' @ fst (next_nanoid w) @ ''.'' @
                 after_last CHR ''.'' filename \<and>
           after_last CHR ''.'' key = after_last CHR ''.'' filename"
proof -
  let ?key = "(Format_200601 (clock w) @ ''/'' @ fst (next_nanoid w)) @ ''.'' @ extension_of filename"
  have suffix: "extension_of filename = after_last CHR ''.'' filename"
    using assms(2) by (simp add: extension_of_def)
  have run: "GenerateImageKey filename w = Some ((?key, None), w\<lparr>draws := Suc (draws w)\<rparr>)"
    using assms(1) by (simp add: GenerateImageKey_run)
  have "after_last CHR ''.'' ?key = extension_of filename"
    by (rule after_last_key)
  with run show ?thesis
    unfolding suffix by simp
qed

theorem extension_case_preserved_witness:
  "(\<exists>key w'.
      GenerateImageKey ''photo.PNG'' (world_at 2024 March (''V1StGXR8_Z5jdHi'', None)) = Some ((key, None), w') \<and>
      key = ''202403/V1StGXR8_Z5jdHi.PNG'' \<and> after_last CHR ''.'' key = ''PNG'') \<and>
   (\<exists>key w'.
      GenerateImageKey ''photo.png'' (world_at 2024 March (''V1StGXR8_Z5jdHi'', None)) = Some ((key, None), w') \<and>
      key = ''202403/V1StGXR8_Z5jdHi.png'' \<and> after_last CHR ''.'' key = ''png'')"
proof -
  let ?w = "world_at 2024 March (''V1StGXR8_Z5jdHi'', None)"
  have ok: "snd (next_nanoid ?w) = None"
    by (simp add: world_at_def)
  have dot1: "CHR ''.'' \<in> set ''photo.PNG''" and dot2: "CHR ''.'' \<in> set ''photo.png''"
    by simp_all
  have ext1: "after_last CHR ''.'' ''photo.PNG'' = ''PNG''"
    and ext2: "after_last CHR ''.'' ''photo.png'' = ''png''"
    by (simp_all add: after_last_def)
  have date: "Format_200601 (clock ?w) = ''202403''"
    by code_simp
  have name: "fst (next_nanoid ?w) = ''V1StGXR8_Z5jdHi''"
    by (simp add: world_at_def)
  show ?thesis
    using extension_case_preserved [OF ok dot1] extension_case_preserved [OF ok dot2]
    unfolding ext1 ext2 date name by simp
qed

section \<open>The pattern of a key\<close>

lemma digit_byteI:
  assumes "d < 10" and "of_char c = 48 + d"
  shows "digit_byte d = c"
proof -
  have "(of_char (digit_byte d) :: nat) = of_char c"
    using assms by (simp add: of_char_digit_byte)
  then show ?thesis
    by (simp only: of_char_eq_iff)
qed

lemma digit_byte_values:
  "digit_byte 0 = CHR ''0''" "digit_byte (Suc 0) = CHR ''1''" "digit_byte 2 = CHR ''2''"
  "digit_byte 3 = CHR ''3''" "digit_byte 4 = CHR ''4''" "digit_byte 5 = CHR ''5''"
  "digit_byte 6 = CHR ''6''" "digit_byte 7 = CHR ''7''" "digit_byte 8 = CHR ''8''"
  "digit_byte 9 = CHR ''9''"
  by (rule digit_byteI; simp)+

lemma decimal_one_digit: "u < 10 \<Longrightarrow> decimal u = [digit_byte u]"
  by (subst decimal.simps) simp

lemma decimal_more_digits:
  "\<not> u < 10 \<Longrightarrow> decimal u = decimal (u div 10) @ [digit_byte (u mod 10)]"
  by (subst decimal.simps) simp

lemmas decimal_eval = decimal_one_digit decimal_more_digits digit_byte_values

lemma Format_200601_year_10000:
  "year t = 10000 \<Longrightarrow> month t = January \<Longrightarrow> Format_200601 t = ''1000001''"
  by (simp add: Format_200601_def appendInt_def Let_def decimal_eval)

lemma defaultAlphabet_url_safe: "list_all url_safe defaultAlphabet"
  by code_simp

lemma nanoid15_url_safe: "nanoid15 s \<Longrightarrow> length s = 15 \<and> list_all url_safe s"
  using defaultAlphabet_url_safe by (auto simp: nanoid15_def list_all_iff)

lemma matches_PNG_patternI:
  assumes "length d = 6" and "list_all is_digit d" and "length i = 15" and "list_all url_safe i"
  shows "matches_PNG_pattern (d @ ''/'' @ i @ ''.'' @ ''PNG'')"
  using assms by (simp add: matches_PNG_pattern_def nth_append)

text \<open>
  The claim C5 as stated fails at a clock reading whose year has more than four digits:
  the layout writes such a year in full, and the date segment has seven digits.
\<close>

theorem PNG_pattern_counterexample:
  "nanoid15 ''V1StGXR8_Z5jdHi'' \<and>
   map_option fst (GenerateImageKeyWithEnv ''photo.PNG'' ''production''
      (world_at 10000 January (''V1StGXR8_Z5jdHi'', None))) =
     Some (''1000001/V1StGXR8_Z5jdHi.PNG'', None) \<and>
   \<not> matches_PNG_pattern ''1000001/V1StGXR8_Z5jdHi.PNG''"
proof -
  have "nanoid15 ''V1StGXR8_Z5jdHi''"
    by code_simp
  moreover have "extension_of ''photo.PNG'' = ''PNG''"
    by (simp add: extension_of_def after_last_def)
  then have "map_option fst (GenerateImageKeyWithEnv ''photo.PNG'' ''production''
      (world_at 10000 January (''V1StGXR8_Z5jdHi'', None))) =
     Some (''1000001/V1StGXR8_Z5jdHi.PNG'', None)"
    by (simp add: GenerateImageKeyWithEnv_run world_at_def Format_200601_year_10000)
  moreover have "\<not> matches_PNG_pattern ''1000001/V1StGXR8_Z5jdHi.PNG''"
    by (simp add: matches_PNG_pattern_def)
  ultimately show ?thesis
    by blast
qed

text \<open>
  Claim C5, amended. When the identifier source succeeds with 15 bytes of the URL-safe
  alphabet and the year of the clock reading lies between 0 and 9999, the key of
  \<open>GenerateImageKeyWithEnv\<close> for the filename \<open>photo.PNG\<close> and the environment
  \<open>production\<close> matches \<open>^\d{6}/[A-Za-z0-9_-]{15}\.PNG$\<close>: the extension keeps its case.
\<close>

theorem PNG_pattern:
  assumes "snd (next_nanoid w) = None" and "nanoid15 (fst (next_nanoid w))"
    and "0 \<le> year (clock w)" and "year (clock w) \<le> 9999"
  shows "\<exists>key w'.
           GenerateImageKeyWithEnv ''photo.PNG'' ''production'' w = Some ((key, None), w') \<and>
           matches_PNG_pattern key"
proof -
  let ?key = "Format_200601 (clock w) @ ''/'' @ fst (next_nanoid w) @ ''.'' @ ''PNG''"
  have ext: "extension_of ''photo.PNG'' = ''PNG''"
    by (simp add: extension_of_def after_last_def)
  have "GenerateImageKeyWithEnv ''photo.PNG'' ''production'' w =
      Some ((?key, None), w\<lparr>draws := Suc (draws w)\<rparr>)"
    using assms(1) by (simp add: GenerateImageKeyWithEnv_run ext)
  moreover have "matches_PNG_pattern ?key"
    using Format_200601_six_digits [OF assms(3,4)] nanoid15_url_safe [OF assms(2)]
    by (intro matches_PNG_patternI) simp_all
  ultimately show ?thesis
    by blast
qed

theorem PNG_pattern_witness:
  "\<exists>key w'.
     GenerateImageKeyWithEnv ''photo.PNG'' ''production'' (world_at 2024 March (''V1StGXR8_Z5jdHi'', None)) =
       Some ((key, None), w') \<and>
     matches_PNG_pattern key"
proof -
  let ?w = "world_at 2024 March (''V1StGXR8_Z5jdHi'', None)"
  have ok: "snd (next_nanoid ?w) = None"
    by (simp add: world_at_def)
  have "nanoid15 ''V1StGXR8_Z5jdHi''"
    by code_simp
  then have id: "nanoid15 (fst (next_nanoid ?w))"
    by (simp add: world_at_def)
  have lo: "0 \<le> year (clock ?w)" and hi: "year (clock ?w) \<le> 9999"
    by (simp_all add: world_at_def)
  show ?thesis
    using PNG_pattern [OF ok id lo hi] .
qed

section \<open>Failure\<close>

text \<open>
  Claim C6. \<open>GenerateImageKeyWithEnv\<close> never panics, whatever the filename and the
  environment, and returns an error if and only if the identifier source does. The error
  is the one \<open>GenerateImageKey\<close> returns, the source's error wrapped behind
  \<open>failed to generate nanoid: \<close>, and the key returned with an error is the empty string.
\<close>

theorem GenerateImageKeyWithEnv_failure:
  "\<exists>key err w'.
     GenerateImageKeyWithEnv filename environment w = Some ((key, err), w') \<and>
     (err \<noteq> None \<longleftrightarrow> snd (next_nanoid w) \<noteq> None) \<and>
     err = map_option (Errorf ''failed to generate nanoid: '') (snd (next_nanoid w)) \<and>
     map_option (snd \<circ> fst) (GenerateImageKey filename w) = Some err \<and>
     (err = None \<or> key = '''')"
proof (cases "snd (next_nanoid w)")
  case None
  then show ?thesis
    by (simp add: GenerateImageKeyWithEnv_run GenerateImageKey_run)
next
  case (Some e)
  then show ?thesis
    by (simp add: GenerateImageKeyWithEnv_run GenerateImageKey_run)
qed

theorem GenerateImageKeyWithEnv_failure_witness:
  "(\<exists>key err w'.
      GenerateImageKeyWithEnv '''' ''dev'' (world_at 2024 March ('''', Some (SourceError ''no entropy''))) =
        Some ((key, err), w') \<and>
      err = Some (Errorf ''failed to generate nanoid: '' (SourceError ''no entropy'')) \<and> key = '''') \<and>
   (\<exists>key err w'.
      GenerateImageKeyWithEnv '''' ''dev'' (world_at 2024 March (''V1StGXR8_Z5jdHi'', None)) =
        Some ((key, err), w') \<and> err = None)"
proof -
  let ?bad = "world_at 2024 March ('''', Some (SourceError ''no entropy''))"
  let ?good = "world_at 2024 March (''V1StGXR8_Z5jdHi'', None)"
  have bad: "snd (next_nanoid ?bad) = Some (SourceError ''no entropy'')"
    by (simp add: world_at_def)
  have good: "snd (next_nanoid ?good) = None"
    by (simp add: world_at_def)
  show ?thesis
    using GenerateImageKeyWithEnv_failure [of "''''" "''dev''" ?bad]
      GenerateImageKeyWithEnv_failure [of "''''" "''dev''" ?good]
    unfolding bad good by auto
qed

section \<open>The date segment\<close>

lemma date_segment_key: "date_segment (Format_200601 t @ ''/'' @ rest) = Format_200601 t"
  using Format_200601_no_slash [of t]
  by (simp add: date_segment_def takeWhile_tail takeWhile_all)

text \<open>
  Claim C7. For two successful calls of \<open>GenerateImageKey\<close>, with any filenames and
  identifiers, the date segments of the two keys are equal if and only if the two clock
  readings have the same year and the same month.
\<close>

theorem date_segment_same_month:
  assumes "snd (next_nanoid w1) = None" and "snd (next_nanoid w2) = None"
  shows "\<exists>key1 key2 w1' w2'.
           GenerateImageKey filename1 w1 = Some ((key1, None), w1') \<and>
           GenerateImageKey filename2 w2 = Some ((key2, None), w2') \<and>
           (date_segment key1 = date_segment key2 \<longleftrightarrow>
            year (clock w1) = year (clock w2) \<and> month (clock w1) = month (clock w2))"
proof -
  let ?k1 = "Format_200601 (clock w1) @ ''/'' @ fst (next_nanoid w1) @ ''.'' @ extension_of filename1"
  let ?k2 = "Format_200601 (clock w2) @ ''/'' @ fst (next_nanoid w2) @ ''.'' @ extension_of filename2"
  have r1: "GenerateImageKey filename1 w1 = Some ((?k1, None), w1\<lparr>draws := Suc (draws w1)\<rparr>)"
    using assms(1) by (simp add: GenerateImageKey_run)
  have r2: "GenerateImageKey filename2 w2 = Some ((?k2, None), w2\<lparr>draws := Suc (draws w2)\<rparr>)"
    using assms(2) by (simp add: GenerateImageKey_run)
  have "date_segment ?k1 = date_segment ?k2 \<longleftrightarrow>
        year (clock w1) = year (clock w2) \<and> month (clock w1) = month (clock w2)"
    by (simp only: date_segment_key Format_200601_inj)
  with r1 r2 show ?thesis
    by blast
qed

theorem date_segment_same_month_witness:
  "(\<exists>key1 key2 w1' w2'.
      GenerateImageKey ''a.png'' (world_at 2024 March (''V1StGXR8_Z5jdHi'', None)) = Some ((key1, None), w1') \<and>
      GenerateImageKey ''b.gif'' ((world_at 2024 March (''ppBqWA9-czNK0Xq'', None))
          \<lparr>clock := \<lparr>year = 2024, month = March, day = 31, hour = 23, minute = 59, second = 59\<rparr>\<rparr>) =
        Some ((key2, None), w2') \<and>
      date_segment key1 = date_segment key2) \<and>
   (\<exists>key1 key2 w1' w2'.
      GenerateImageKey ''a.png'' (world_at 2024 March (''V1StGXR8_Z5jdHi'', None)) = Some ((key1, None), w1') \<and>
      GenerateImageKey ''a.png'' (world_at 2024 April (''V1StGXR8_Z5jdHi'', None)) = Some ((key2, None), w2') \<and>
      date_segment key1 \<noteq> date_segment key2)"
proof -
  let ?a = "world_at 2024 March (''V1StGXR8_Z5jdHi'', None)"
  let ?b = "(world_at 2024 March (''ppBqWA9-czNK0Xq'', None))
    \<lparr>clock := \<lparr>year = 2024, month = March, day = 31, hour = 23, minute = 59, second = 59\<rparr>\<rparr>"
  let ?c = "world_at 2024 April (''V1StGXR8_Z5jdHi'', None)"
  have a: "snd (next_nanoid ?a) = None" and b: "snd (next_nanoid ?b) = None"
    and c: "snd (next_nanoid ?c) = None"
    by (simp_all add: world_at_def)
  have same: "year (clock ?a) = year (clock ?b) \<and> month (clock ?a) = month (clock ?b)"
    by (simp add: world_at_def)
  have other: "\<not> (year (clock ?a) = year (clock ?c) \<and> month (clock ?a) = month (clock ?c))"
    by (simp add: world_at_def)
  obtain k1 k2 u1 u2 where
    "GenerateImageKey ''a.png'' ?a = Some ((k1, None), u1)"
    "GenerateImageKey ''b.gif'' ?b = Some ((k2, None), u2)"
    "date_segment k1 = date_segment k2"
    using date_segment_same_month [OF a b, of "''a.png''" "''b.gif''"] same by blast
  moreover obtain k3 k4 u3 u4 where
    "GenerateImageKey ''a.png'' ?a = Some ((k3, None), u3)"
    "GenerateImageKey ''a.png'' ?c = Some ((k4, None), u4)"
    "date_segment k3 \<noteq> date_segment k4"
    using date_segment_same_month [OF a c, of "''a.png''" "''a.png''"] other by blast
  ultimately show ?thesis
    by blast
qed

section \<open>The environment only adds the prefix\<close>

text \<open>
  Claim C10. When the identifier source succeeds, the key of \<open>GenerateImageKeyWithEnv\<close>
  is \<open>dev/\<close> followed by the key of \<open>GenerateImageKey\<close> for the environments \<open>dev\<close>
  and \<open>development\<close>, and is the key of \<open>GenerateImageKey\<close> for every other one; that
  key, date segment, identifier and extension, does not depend on the environment.
\<close>

theorem environment_only_prefix:
  assumes "snd (next_nanoid w) = None"
  shows "\<exists>key w'.
           GenerateImageKey filename w = Some ((key, None), w') \<and>
           GenerateImageKeyWithEnv filename environment w =
             Some ((if environment = ''dev'' \<or> environment = ''development''
                    then ''dev/'' @ key else key, None), w') \<and>
           key = Format_200601 (clock w) @ ''/'' @ fst (next_nanoid w) @ ''.'' @ extension_of filename"
  using assms by (simp add: GenerateImageKey_run GenerateImageKeyWithEnv_run)

theorem environment_only_prefix_witness:
  "(\<exists>key w'.
      GenerateImageKey ''photo.PNG'' (world_at 2024 March (''V1StGXR8_Z5jdHi'', None)) = Some ((key, None), w') \<and>
      GenerateImageKeyWithEnv ''photo.PNG'' ''development'' (world_at 2024 March (''V1StGXR8_Z5jdHi'', None)) =
        Some ((''dev/'' @ key, None), w') \<and>
      key = ''202403/V1StGXR8_Z5jdHi.PNG'') \<and>
   (\<exists>key w'.
      GenerateImageKey ''photo.PNG'' (world_at 2024 March (''V1StGXR8_Z5jdHi'', None)) = Some ((key, None), w') \<and>
      GenerateImageKeyWithEnv ''photo.PNG'' ''staging'' (world_at 2024 March (''V1StGXR8_Z5jdHi'', None)) =
        Some ((key, None), w') \<and>
      key = ''202403/V1StGXR8_Z5jdHi.PNG'')"
proof -
  let ?w = "world_at 2024 March (''V1StGXR8_Z5jdHi'', None)"
  have ok: "snd (next_nanoid ?w) = None"
    by (simp add: world_at_def)
  have date: "Format_200601 (clock ?w) = ''202403''"
    by code_simp
  have name: "fst (next_nanoid ?w) = ''V1StGXR8_Z5jdHi''"
    by (simp add: world_at_def)
  have suffix: "extension_of ''photo.PNG'' = ''PNG''"
    by (simp add: extension_of_def after_last_def)
  show ?thesis
    using environment_only_prefix [OF ok, of "''photo.PNG''" "''development''"]
      environment_only_prefix [OF ok, of "''photo.PNG''" "''staging''"]
    by (simp add: date name suffix)
qed

end
